theory Spec2Isabelle
  imports Main
begin

section \<open>The gateway of \<open>src/index.js\<close> as a stack of layers\<close>

text \<open>
  The source is one Express application: an ordered list of layers (\<open>app.use\<close>
  middleware and \<open>app.get\<close>/\<open>app.post\<close>/... routes). A request walks the
  list in registration order; a layer that matches either answers (the walk stops) or
  calls \<open>next()\<close> (the walk goes on with the layer after it). The model keeps
  that list, \<open>app\<close>, in the order of the source file, and every handler of the
  source is a function below.

  What stands outside the model: the third-party middleware of lines 19 to 22 (logging,
  security headers, CORS, body parsing), so a request here is one those have passed on,
  with its body parsed; percent-decoding of path parameters; the serialisation of the
  query string (the request carries it as \<open>URLSearchParams(req.query).toString()\<close>
  renders it); real time (a refill is an event) and the interleaving of requests in
  flight (a request is handled in one step).
\<close>

subsection \<open>JSON values\<close>

datatype json =
    JNull
  | JBool bool
  | JNum int
  | JStr string
  | JArr "json list"
  | JObj "(string \<times> json) list"

text \<open>
  An object is the list of its own properties, each key once, as \<open>JSON.parse\<close>
  leaves it. JavaScript truthiness of a decoded JSON value:
\<close>

fun truthy :: "json \<Rightarrow> bool" where
  "truthy JNull = False"
| "truthy (JBool b) = b"
| "truthy (JNum n) = (n \<noteq> 0)"
| "truthy (JStr s) = (s \<noteq> [])"
| "truthy (JArr xs) = True"
| "truthy (JObj kvs) = True"

text \<open>
  \<open>v[k]\<close> for the keys the gateway reads (\<open>modules\<close>, \<open>features\<close>
  and the gate keys): an own property of an object, \<open>undefined\<close> (\<open>None\<close>)
  on anything else.
\<close>

fun js_prop :: "json \<Rightarrow> string \<Rightarrow> json option" where
  "js_prop (JObj kvs) k = map_of kvs k"
| "js_prop v k = None"

subsection \<open>Requests, responses, collaborators\<close>

datatype verb = GET | HEAD | POST | PUT | PATCH | DELETE

record request =
  verb :: verb
  path :: string
  headers :: "string \<Rightarrow> string option"
  query :: string
  body :: json

datatype response = Json nat json | NotFound

fun status :: "response \<Rightarrow> nat" where
  "status (Json st j) = st"
| "status NotFound = 404"

text \<open>
  A verified token: its decoded payload whole (\<open>claims\<close>, what \<open>/api/v1/me\<close>
  returns), and the fields of it that the gateway reads, \<open>id\<close> and \<open>scopes\<close>.
\<close>

record scope_claims =
  orgId :: "string option"
  businesses :: "string list option"

record principal =
  claims :: json
  user_id :: "string option"
  scopes :: "scope_claims option"

record outcall =
  http_method :: verb
  url :: string
  out_headers :: "(string \<times> string) list"
  payload :: "json option"

text \<open>
  What \<open>fetch\<close> gives: the promise rejects, or it resolves to a response with a
  status and a body that \<open>r.json()\<close> decodes (\<open>Some\<close>) or rejects
  (\<open>None\<close>).
\<close>

datatype fetch_result = Rejects | Resolves nat "json option"

definition ok :: "nat \<Rightarrow> bool" where
  "ok st = (200 \<le> st \<and> st \<le> 299)"

text \<open>
  \<open>process.env\<close>: string variables, and \<open>RATE_TOKENS\<close> as the whole number
  \<open>Number\<close> reads from it (\<open>None\<close> when unset or empty).
\<close>

record process_env =
  vars :: "string \<Rightarrow> string option"
  RATE_TOKENS :: "int option"

record world =
  env :: process_env
  verify :: "string \<Rightarrow> string \<Rightarrow> principal option"
  fetch :: "outcall \<Rightarrow> fetch_result"
  uuid :: string

text \<open>\<open>process.env.K || d\<close>: an unset or empty variable gives the default.\<close>

definition env_or :: "process_env \<Rightarrow> string \<Rightarrow> string \<Rightarrow> string" where
  "env_or e k d = (case vars e k of None \<Rightarrow> d | Some v \<Rightarrow> if v = [] then d else v)"

text \<open>
  The process-wide state: the admission counter \<open>TOKENS\<close>, and the outbound calls
  issued so far, oldest first.
\<close>

record gateway =
  TOKENS :: int
  issued :: "outcall list"

text \<open>The request as the handlers see it: \<open>req.id\<close>, \<open>req.user\<close>, \<open>req.entitlements\<close>.\<close>

record ctx =
  request :: request
  req_id :: string
  user :: "principal option"
  entitlements :: "json option"

definition envelope :: "string \<Rightarrow> string \<Rightarrow> json" where
  "envelope msg rid = JObj [(''message'', JStr msg), (''requestId'', JStr rid)]"

definition issue :: "outcall \<Rightarrow> gateway \<Rightarrow> gateway" where
  "issue c g = g\<lparr>issued := issued g @ [c]\<rparr>"

definition get_call :: "string \<Rightarrow> outcall" where
  "get_call u = \<lparr>http_method = GET, url = u, out_headers = [], payload = None\<rparr>"

subsection \<open>Middleware\<close>

text \<open>Lines 13 to 17: \<open>req.id = req.headers['x-request-id'] || uuid()\<close>.\<close>

definition request_id :: "world \<Rightarrow> request \<Rightarrow> string" where
  "request_id w r =
     (case headers r ''x-request-id'' of
        None \<Rightarrow> uuid w
      | Some v \<Rightarrow> if v = [] then uuid w else v)"

definition assign_request_id :: "world \<Rightarrow> ctx \<Rightarrow> ctx" where
  "assign_request_id w c = c\<lparr>req_id := request_id w (request c)\<rparr>"

text \<open>
  Line 34 and line 497:
  \<open>scopes?.orgId || scopes?.businesses?.[0] || 'default'\<close>.
\<close>

definition js_or :: "string option \<Rightarrow> string \<Rightarrow> string" where
  "js_or a d = (case a of None \<Rightarrow> d | Some s \<Rightarrow> if s = [] then d else s)"

definition first_business :: "scope_claims \<Rightarrow> string option" where
  "first_business sc =
     (case businesses sc of None \<Rightarrow> None | Some [] \<Rightarrow> None | Some (b # bs) \<Rightarrow> Some b)"

definition tenantId_of :: "principal option \<Rightarrow> string" where
  "tenantId_of u =
     (case u of
        None \<Rightarrow> ''default''
      | Some decoded \<Rightarrow>
          (case scopes decoded of
             None \<Rightarrow> ''default''
           | Some sc \<Rightarrow> js_or (orgId sc) (js_or (first_business sc) ''default'')))"

text \<open>
  Line 36:
  \<open>process.env.ENTITLEMENTS_URL || 'http://localhost:7002/entitlements/' + tenantId\<close>.
  In JavaScript \<open>+\<close> binds tighter than \<open>||\<close>, so the tenant is appended to
  the default only.
\<close>

definition entitlements_url :: "process_env \<Rightarrow> string \<Rightarrow> string" where
  "entitlements_url e tenantId =
     env_or e ''ENTITLEMENTS_URL'' (''http://localhost:7002/entitlements/'' @ tenantId)"

definition empty_entitlements :: json where
  "empty_entitlements = JObj [(''modules'', JObj []), (''features'', JObj [])]"

definition openPaths :: "string list" where
  "openPaths = [''/healthz'', ''/readyz'', ''/auth/login'']"

text \<open>
  Lines 27 and 28: \<open>auth.startsWith('Bearer ') ? auth.slice(7) : null\<close> on
  \<open>req.headers.authorization || ''\<close>. \<open>None\<close> is \<open>null\<close>.
\<close>

definition bearer_token :: "request \<Rightarrow> string option" where
  "bearer_token r =
     (let auth = (case headers r ''authorization'' of None \<Rightarrow> [] | Some a \<Rightarrow> a)
      in if take 7 auth = ''Bearer '' then Some (drop 7 auth) else None)"

text \<open>Lines 35 to 41: the entitlement read, with both of its fallbacks.\<close>

definition resolve_entitlements :: "fetch_result \<Rightarrow> json" where
  "resolve_entitlements fr =
     (case fr of
        Rejects \<Rightarrow> empty_entitlements
      | Resolves st b \<Rightarrow>
          if ok st then (case b of None \<Rightarrow> empty_entitlements | Some j \<Rightarrow> j)
          else empty_entitlements)"

text \<open>
  Lines 24 to 46. \<open>Inl\<close> is a response sent, \<open>Inr\<close> is \<open>next()\<close> with the
  request as the middleware leaves it. \<open>!token\<close> holds for \<open>null\<close> and for
  the empty string.
\<close>

definition auth_entitlements :: "world \<Rightarrow> ctx \<Rightarrow> gateway \<Rightarrow> (response + ctx) \<times> gateway" where
  "auth_entitlements w c g =
     (if path (request c) \<in> set openPaths then (Inr c, g)
      else
        (case bearer_token (request c) of
           None \<Rightarrow> (Inl (Json 401 (envelope ''Missing token'' (req_id c))), g)
         | Some token \<Rightarrow>
             if token = [] then (Inl (Json 401 (envelope ''Missing token'' (req_id c))), g)
             else
               (case verify w token (env_or (env w) ''JWT_SECRET'' ''dev-secret'') of
                  None \<Rightarrow> (Inl (Json 401 (envelope ''Invalid token'' (req_id c))), g)
                | Some decoded \<Rightarrow>
                    (let tenantId = tenantId_of (Some decoded);
                         call = get_call (entitlements_url (env w) tenantId)
                     in (Inr (c\<lparr>user := Some decoded,
                                entitlements := Some (resolve_entitlements (fetch w call))\<rparr>),
                         issue call g)))))"

text \<open>Lines 49 to 56: the admission counter, its refill and its middleware.\<close>

definition rate_ceiling :: "process_env \<Rightarrow> int" where
  "rate_ceiling e = (case RATE_TOKENS e of None \<Rightarrow> 200 | Some n \<Rightarrow> n)"

definition boot :: "process_env \<Rightarrow> gateway" where
  "boot e = \<lparr>TOKENS = rate_ceiling e, issued = []\<rparr>"

definition refill :: "process_env \<Rightarrow> gateway \<Rightarrow> gateway" where
  "refill e g = g\<lparr>TOKENS := rate_ceiling e\<rparr>"

definition rate_limit :: "ctx \<Rightarrow> gateway \<Rightarrow> (response + ctx) \<times> gateway" where
  "rate_limit c g =
     (if TOKENS g \<le> 0 then (Inl (Json 429 (envelope ''Too many requests'' (req_id c))), g)
      else (Inr c, g\<lparr>TOKENS := TOKENS g - 1\<rparr>))"

text \<open>
  Lines 416 to 425: \<open>(req.entitlements && req.entitlements.features) || {}\<close>, then
  the strict comparison with \<open>false\<close>.
\<close>

definition entitlement_group :: "json option \<Rightarrow> string \<Rightarrow> json" where
  "entitlement_group ent k =
     (case ent of
        None \<Rightarrow> JObj []
      | Some e \<Rightarrow>
          if truthy e then
            (case js_prop e k of None \<Rightarrow> JObj [] | Some m \<Rightarrow> if truthy m then m else JObj [])
          else JObj [])"

definition featureEnabled :: "string \<Rightarrow> ctx \<Rightarrow> response + ctx" where
  "featureEnabled flag c =
     (let flags = entitlement_group (entitlements c) ''features''
      in if js_prop flags flag = Some (JBool False)
         then Inl (Json 403 (JObj [(''message'', JStr (''Feature disabled: '' @ flag))]))
         else Inr c)"

definition moduleEnabled :: "string \<Rightarrow> ctx \<Rightarrow> response + ctx" where
  "moduleEnabled moduleKey c =
     (let mods = entitlement_group (entitlements c) ''modules''
      in if js_prop mods moduleKey = Some (JBool False)
         then Inl (Json 403 (JObj [(''message'', JStr (''Module disabled: '' @ moduleKey))]))
         else Inr c)"

datatype middleware =
    RequestId
  | AuthEntitlements
  | RateLimit
  | ModuleEnabled string
  | FeatureEnabled string

fun run_middleware :: "world \<Rightarrow> middleware \<Rightarrow> ctx \<Rightarrow> gateway \<Rightarrow> (response + ctx) \<times> gateway" where
  "run_middleware w RequestId c g = (Inr (assign_request_id w c), g)"
| "run_middleware w AuthEntitlements c g = auth_entitlements w c g"
| "run_middleware w RateLimit c g = rate_limit c g"
| "run_middleware w (ModuleEnabled k) c g = (moduleEnabled k c, g)"
| "run_middleware w (FeatureEnabled k) c g = (featureEnabled k c, g)"

subsection \<open>Paths and patterns\<close>

text \<open>
  Express matches a route pattern segment by segment: a literal segment without regard
  to case, a \<open>:name\<close> segment against any non-empty segment, and one trailing
  slash is allowed. A mount path of \<open>app.use\<close> matches as a prefix of whole
  segments; \<open>app.use(fn)\<close> is mounted at \<open>/\<close> and matches every path.

  \<open>match_segs\<close> binds a parameter to the segment as it stands in the path. Express
  passes the segment through \<open>decodeURIComponent\<close> first, and answers 400 without
  running the handler when that throws. The two agree on every segment without a percent
  sign; a statement below that follows a parameter from the path into a handler is made
  for such segments only.
\<close>

definition lower :: "char \<Rightarrow> char" where
  "lower c =
     (case map_of (zip ''ABCDEFGHIJKLMNOPQRSTUVWXYZ'' ''abcdefghijklmnopqrstuvwxyz'') c of
        None \<Rightarrow> c
      | Some l \<Rightarrow> l)"

fun split_slash :: "string \<Rightarrow> string list" where
  "split_slash [] = [[]]"
| "split_slash (x # xs) =
     (if x = CHR ''/'' then [] # split_slash xs
      else (case split_slash xs of [] \<Rightarrow> [[x]] | s # ss \<Rightarrow> (x # s) # ss))"

definition segments :: "string \<Rightarrow> string list option" where
  "segments p =
     (case p of [] \<Rightarrow> None | c # rest \<Rightarrow> if c = CHR ''/'' then Some (split_slash rest) else None)"

definition is_param :: "string \<Rightarrow> bool" where
  "is_param s = (case s of [] \<Rightarrow> False | c # n \<Rightarrow> c = CHR '':'')"

fun match_segs :: "string list \<Rightarrow> string list \<Rightarrow> (string \<times> string) list option" where
  "match_segs [] [] = Some []"
| "match_segs (p # ps) (s # ss) =
     (if is_param p then
        (if s = [] then None else map_option (\<lambda>bs. (tl p, s) # bs) (match_segs ps ss))
      else if map lower p = map lower s then match_segs ps ss
      else None)"
| "match_segs ps ss = None"

definition strip_slash :: "string list \<Rightarrow> string list" where
  "strip_slash ss = (if ss \<noteq> [] \<and> last ss = [] then butlast ss else ss)"

definition route_match :: "string \<Rightarrow> string \<Rightarrow> (string \<times> string) list option" where
  "route_match pat p =
     (case (segments pat, segments p) of
        (Some ps, Some ss) \<Rightarrow> match_segs ps (strip_slash ss)
      | _ \<Rightarrow> None)"

definition use_matches :: "string \<Rightarrow> string \<Rightarrow> bool" where
  "use_matches mount p =
     (mount = ''/'' \<or>
      (case (segments mount, segments p) of
         (Some ms, Some ss) \<Rightarrow>
           length ms \<le> length ss \<and> map (map lower) (take (length ms) ss) = map (map lower) ms
       | _ \<Rightarrow> False))"

text \<open>
  A route registered with \<open>app.get\<close> also answers \<open>HEAD\<close>. The answer is
  modelled as the handler builds it; on the wire the answer to a \<open>HEAD\<close> has no body.
\<close>

definition handles :: "verb \<Rightarrow> verb \<Rightarrow> bool" where
  "handles v m = (v = m \<or> (v = GET \<and> m = HEAD))"

subsection \<open>Route bindings and the proxy handler\<close>

text \<open>
  Every proxy handler of the source has one shape: build a URL from a base address, a
  path with the request's parameters and, on some routes, the query string; call
  \<open>fetch\<close>; relay \<open>r.status\<close> and \<open>await r.json()\<close>; answer 502 with the
  service's label when either throws. A binding holds what differs from route to route.
\<close>

datatype header_value = Fixed string | UserIdOrEmpty

record binding =
  label :: string
  base :: "string \<times> string"
  target :: string
  with_query :: bool
  out_method :: verb
  send_headers :: "(string \<times> header_value) list"
  with_body :: bool

text \<open>Lines 100 to 113, 523, 558 and 581: a variable of the environment and its default.\<close>

definition ORG_BASE :: "string \<times> string" where
  "ORG_BASE = (''ORG_SERVICE_URL'', ''http://localhost:7003'')"
definition FORMS_BASE :: "string \<times> string" where
  "FORMS_BASE = (''FORMS_SERVICE_URL'', ''http://localhost:7004'')"
definition SUBMISSIONS_BASE :: "string \<times> string" where
  "SUBMISSIONS_BASE = (''SUBMISSIONS_SERVICE_URL'', ''http://localhost:3005'')"
definition DISCOUNTS_BASE :: "string \<times> string" where
  "DISCOUNTS_BASE = (''DISCOUNTS_SERVICE_URL'', ''http://localhost:3006'')"
definition STAFF_BASE :: "string \<times> string" where
  "STAFF_BASE = (''STAFF_SERVICE_URL'', ''http://localhost:3007'')"
definition NOTIFY_BASE :: "string \<times> string" where
  "NOTIFY_BASE = (''NOTIFICATIONS_SERVICE_URL'', ''http://localhost:3008'')"
definition REPORT_BASE :: "string \<times> string" where
  "REPORT_BASE = (''REPORTING_SERVICE_URL'', ''http://localhost:3009'')"
definition I18N_BASE :: "string \<times> string" where
  "I18N_BASE = (''TRANSLATION_SERVICE_URL'', ''http://localhost:3010'')"
definition FLAGS_BASE :: "string \<times> string" where
  "FLAGS_BASE = (''FEATURE_FLAGS_SERVICE_URL'', ''http://localhost:3011'')"
definition API_PROG_BASE :: "string \<times> string" where
  "API_PROG_BASE = (''API_PROGRAM_SERVICE_URL'', ''http://localhost:3012'')"
definition SEARCH_BASE :: "string \<times> string" where
  "SEARCH_BASE = (''SEARCH_SERVICE_URL'', ''http://localhost:3013'')"
definition METER_BASE :: "string \<times> string" where
  "METER_BASE = (''METERING_SERVICE_URL'', ''http://localhost:3014'')"
definition INTEG_BASE :: "string \<times> string" where
  "INTEG_BASE = (''INTEGRATION_HUB_SERVICE_URL'', ''http://localhost:3015'')"
definition EXPORT_BASE :: "string \<times> string" where
  "EXPORT_BASE = (''EXPORT_SCHED_SERVICE_URL'', ''http://localhost:3016'')"
definition AI_ML_BASE :: "string \<times> string" where
  "AI_ML_BASE = (''AI_ML_SERVICE_URL'', ''http://localhost:3017'')"
definition AUDIT_BASE :: "string \<times> string" where
  "AUDIT_BASE = (''AUDIT_SERVICE_URL'', ''http://localhost:3018'')"
definition TENANT_ISOLATION_BASE :: "string \<times> string" where
  "TENANT_ISOLATION_BASE = (''TENANT_ISOLATION_SERVICE_URL'', ''http://localhost:3019'')"

definition base_url :: "process_env \<Rightarrow> string \<times> string \<Rightarrow> string" where
  "base_url e b = env_or e (fst b) (snd b)"

text \<open>\<open>fetch(url)\<close>, with the query string when \<open>q\<close>.\<close>

definition fetch_get :: "string \<Rightarrow> string \<times> string \<Rightarrow> string \<Rightarrow> bool \<Rightarrow> binding" where
  "fetch_get l b t q =
     \<lparr>label = l, base = b, target = t, with_query = q, out_method = GET,
      send_headers = [], with_body = False\<rparr>"

text \<open>\<open>fetch(url, { method: 'DELETE' })\<close>.\<close>

definition fetch_delete :: "string \<Rightarrow> string \<times> string \<Rightarrow> string \<Rightarrow> binding" where
  "fetch_delete l b t =
     \<lparr>label = l, base = b, target = t, with_query = False, out_method = DELETE,
      send_headers = [], with_body = False\<rparr>"

text \<open>
  \<open>fetch(url, { method, headers: { <ct>: 'application/json' }, body: JSON.stringify(req.body) })\<close>.
\<close>

definition fetch_json :: "verb \<Rightarrow> string \<Rightarrow> string \<times> string \<Rightarrow> string \<Rightarrow> string \<Rightarrow> binding" where
  "fetch_json m l b t ct =
     \<lparr>label = l, base = b, target = t, with_query = False, out_method = m,
      send_headers = [(ct, Fixed ''application/json'')], with_body = True\<rparr>"

text \<open>A template such as \<open>/forms/:id\<close> with \<open>req.params\<close> filled in.\<close>

definition instantiate :: "string \<Rightarrow> (string \<times> string) list \<Rightarrow> string" where
  "instantiate t ps =
     (case segments t of
        None \<Rightarrow> t
      | Some segs \<Rightarrow>
          concat (map (\<lambda>s. CHR ''/'' #
                    (if is_param s
                     then (case map_of ps (tl s) of None \<Rightarrow> ''undefined'' | Some v \<Rightarrow> v)
                     else s)) segs))"

definition header_of :: "ctx \<Rightarrow> header_value \<Rightarrow> string" where
  "header_of c h =
     (case h of
        Fixed s \<Rightarrow> s
      | UserIdOrEmpty \<Rightarrow> js_or (case user c of None \<Rightarrow> None | Some u \<Rightarrow> user_id u) [])"

definition outbound :: "world \<Rightarrow> binding \<Rightarrow> (string \<times> string) list \<Rightarrow> ctx \<Rightarrow> outcall" where
  "outbound w b ps c =
     \<lparr>http_method = out_method b,
      url = base_url (env w) (base b) @ instantiate (target b) ps
            @ (if with_query b then CHR ''?'' # query (request c) else []),
      out_headers = map (\<lambda>(k, h). (k, header_of c h)) (send_headers b),
      payload = (if with_body b then Some (body (request c)) else None)\<rparr>"

definition proxy :: "world \<Rightarrow> binding \<Rightarrow> (string \<times> string) list \<Rightarrow> ctx \<Rightarrow> gateway
    \<Rightarrow> response \<times> gateway" where
  "proxy w b ps c g =
     (let call = outbound w b ps c
      in (case fetch w call of
            Resolves st (Some j) \<Rightarrow> (Json st j, issue call g)
          | Resolves st None \<Rightarrow>
              (Json 502 (envelope (label b @ ''-service unavailable'') (req_id c)), issue call g)
          | Rejects \<Rightarrow>
              (Json 502 (envelope (label b @ ''-service unavailable'') (req_id c)), issue call g)))"

subsection \<open>Local handlers\<close>

text \<open>
  Lines 61 to 91: every probe is a \<open>fetch\<close> of \<open>/ready\<close>; a probe that
  throws counts as \<open>false\<close>. Each probe catches its own failure, so the outer
  \<open>catch\<close> of line 88 has nothing left to catch.
\<close>

definition readyz_full :: "world \<Rightarrow> ctx \<Rightarrow> gateway \<Rightarrow> response \<times> gateway" where
  "readyz_full w c g =
     (let services =
            [(''org'', base_url (env w) ORG_BASE @ ''/ready''),
             (''forms'', base_url (env w) FORMS_BASE @ ''/ready''),
             (''submissions'', base_url (env w) SUBMISSIONS_BASE @ ''/ready''),
             (''discounts'', base_url (env w) DISCOUNTS_BASE @ ''/ready''),
             (''staff'', base_url (env w) STAFF_BASE @ ''/ready'')];
          entries =
            map (\<lambda>(k, u). (k, case fetch w (get_call u) of
                                  Rejects \<Rightarrow> False
                                | Resolves st b \<Rightarrow> ok st)) services;
          allOk = list_all snd entries
      in (Json (if allOk then 200 else 503)
            (JObj [(''ready'', JBool allOk),
                   (''status'', JObj (map (\<lambda>(k, v). (k, JBool v)) entries))]),
          g\<lparr>issued := issued g @ map (\<lambda>(k, u). get_call u) services\<rparr>))"

text \<open>Line 94: \<open>req.user || null\<close>, \<open>req.entitlements || null\<close>.\<close>

definition me :: "ctx \<Rightarrow> response" where
  "me c =
     Json 200
       (JObj [(''user'', (case user c of
                            None \<Rightarrow> JNull
                          | Some u \<Rightarrow> if truthy (claims u) then claims u else JNull)),
              (''entitlements'', (case entitlements c of
                                    None \<Rightarrow> JNull
                                  | Some e \<Rightarrow> if truthy e then e else JNull)),
              (''requestId'', JStr (req_id c))])"

text \<open>
  Lines 489 to 493: the notification is sent and whatever comes of it is dropped
  (\<open>try { await fetch(...) } catch {}\<close>).
\<close>

definition meter_call :: "world \<Rightarrow> string \<Rightarrow> string \<Rightarrow> outcall" where
  "meter_call w tenantId metric =
     \<lparr>http_method = POST,
      url = base_url (env w) METER_BASE @ ''/usage/increment'',
      out_headers = [(''content-type'', ''application/json'')],
      payload = Some (JObj [(''tenantId'', JStr tenantId), (''metric'', JStr metric),
                            (''value'', JNum 1)])\<rparr>"

definition meterWrite :: "world \<Rightarrow> string \<Rightarrow> string \<Rightarrow> gateway \<Rightarrow> gateway" where
  "meterWrite w tenantId metric g =
     (let call = meter_call w tenantId metric
      in (case fetch w call of
            Rejects \<Rightarrow> issue call g
          | Resolves st b \<Rightarrow> issue call g))"

datatype endpoint =
    Healthz
  | Readyz
  | ReadyzFull
  | Me
  | Proxy binding
  | WrapWrite endpoint string

text \<open>
  The last equation is \<open>wrapWrite\<close>, lines 496 to 500: the wrapped handler runs
  first and has answered when the meter is called.
\<close>

fun run_endpoint :: "world \<Rightarrow> endpoint \<Rightarrow> (string \<times> string) list \<Rightarrow> ctx \<Rightarrow> gateway
    \<Rightarrow> response \<times> gateway" where
  "run_endpoint w Healthz ps c g =
     (Json 200 (JObj [(''status'', JStr ''ok''), (''requestId'', JStr (req_id c))]), g)"
| "run_endpoint w Readyz ps c g = (Json 200 (JObj [(''status'', JStr ''ready'')]), g)"
| "run_endpoint w ReadyzFull ps c g = readyz_full w c g"
| "run_endpoint w Me ps c g = (me c, g)"
| "run_endpoint w (Proxy b) ps c g = proxy w b ps c g"
| "run_endpoint w (WrapWrite handler metric) ps c g =
     (let tenantId = tenantId_of (user c)
      in (case run_endpoint w handler ps c g of
            (r, g') \<Rightarrow> (r, if status r < 500 then meterWrite w tenantId metric g' else g')))"

subsection \<open>The application\<close>

datatype layer = Use string middleware | Route verb string endpoint

text \<open>Lines 13 to 56.\<close>

definition front :: "layer list" where
  "front = [Use ''/'' RequestId, Use ''/'' AuthEntitlements, Use ''/'' RateLimit]"

text \<open>Lines 58 to 413.\<close>

definition routes_before_guards :: "layer list" where
  "routes_before_guards =
    [Route GET ''/healthz'' Healthz,
     Route GET ''/readyz'' Readyz,
     Route GET ''/readyz/full'' ReadyzFull,
     Route GET ''/api/v1/me'' Me,
     Route GET ''/api/org/:id'' (Proxy (fetch_get ''org'' ORG_BASE ''/org/:id'' False)),
     Route POST ''/api/forms''
       (Proxy (fetch_json POST ''forms'' FORMS_BASE ''/forms'' ''content-type'')),
     Route GET ''/api/forms/:id'' (Proxy (fetch_get ''forms'' FORMS_BASE ''/forms/:id'' False)),
     Route PATCH ''/api/forms/:id''
       (Proxy (fetch_json PATCH ''forms'' FORMS_BASE ''/forms/:id'' ''content-type'')),
     Route DELETE ''/api/forms/:id'' (Proxy (fetch_delete ''forms'' FORMS_BASE ''/forms/:id'')),
     Route GET ''/api/forms/by-code/:code''
       (Proxy (fetch_get ''forms'' FORMS_BASE ''/forms/by-code/:code'' False)),
     Route POST ''/api/franchise/:id/forms''
       (Proxy (fetch_json POST ''forms'' FORMS_BASE ''/franchise/:id/forms'' ''content-type'')),
     Route POST ''/api/org'' (Proxy (fetch_json POST ''org'' ORG_BASE ''/org'' ''content-type'')),
     Route GET ''/api/brand'' (Proxy (fetch_get ''org'' ORG_BASE ''/brand'' True)),
     Route POST ''/api/brand''
       (Proxy (fetch_json POST ''org'' ORG_BASE ''/brand'' ''content-type'')),
     Route GET ''/api/business'' (Proxy (fetch_get ''org'' ORG_BASE ''/business'' True)),
     Route POST ''/api/business''
       (Proxy (fetch_json POST ''org'' ORG_BASE ''/business'' ''content-type'')),
     Route GET ''/api/business/:id'' (Proxy (fetch_get ''org'' ORG_BASE ''/business/:id'' False)),
     Route PATCH ''/api/business/:id''
       (Proxy (fetch_json PATCH ''org'' ORG_BASE ''/business/:id'' ''content-type'')),
     Route GET ''/api/franchise'' (Proxy (fetch_get ''org'' ORG_BASE ''/franchise'' True)),
     Route POST ''/api/franchise''
       (Proxy (fetch_json POST ''org'' ORG_BASE ''/franchise'' ''content-type'')),
     Route GET ''/api/franchise/:id''
       (Proxy (fetch_get ''org'' ORG_BASE ''/franchise/:id'' False)),
     Route PATCH ''/api/franchise/:id''
       (Proxy (fetch_json PATCH ''org'' ORG_BASE ''/franchise/:id'' ''content-type'')),
     Route POST ''/api/submissions''
       (Proxy ((fetch_json POST ''submissions'' SUBMISSIONS_BASE ''/submissions'' ''content-type'')
          \<lparr>send_headers := [(''content-type'', Fixed ''application/json''),
                             (''x-user-id'', UserIdOrEmpty)]\<rparr>)),
     Route GET ''/api/submissions/by-business/:businessId''
       (Proxy (fetch_get ''submissions'' SUBMISSIONS_BASE
                 ''/submissions/by-business/:businessId'' True)),
     Route GET ''/api/discounts/:accessKey''
       (Proxy (fetch_get ''discounts'' DISCOUNTS_BASE ''/discounts/:accessKey'' False)),
     Route POST ''/api/discounts/mark-used''
       (Proxy (fetch_json POST ''discounts'' DISCOUNTS_BASE ''/discounts/mark-used''
                 ''content-type'')),
     Route POST ''/api/staff''
       (Proxy (fetch_json POST ''staff'' STAFF_BASE ''/staff'' ''content-type'')),
     Route GET ''/api/staff'' (Proxy (fetch_get ''staff'' STAFF_BASE ''/staff'' True)),
     Route PATCH ''/api/staff/:id''
       (Proxy (fetch_json PATCH ''staff'' STAFF_BASE ''/staff/:id'' ''content-type'')),
     Route DELETE ''/api/staff/:id'' (Proxy (fetch_delete ''staff'' STAFF_BASE ''/staff/:id'')),
     Route POST ''/api/staff/:id/schedule''
       (Proxy (fetch_json POST ''staff'' STAFF_BASE ''/staff/:id/schedule'' ''content-type'')),
     Route GET ''/api/staff/:id/schedule''
       (Proxy (fetch_get ''staff'' STAFF_BASE ''/staff/:id/schedule'' False)),
     Route GET ''/api/notifications/rules''
       (Proxy (fetch_get ''notifications'' NOTIFY_BASE ''/rules'' True)),
     Route GET ''/api/reports/live/:businessId''
       (Proxy (fetch_get ''reporting'' REPORT_BASE ''/reports/live/:businessId'' False))]"

text \<open>Lines 428 to 435.\<close>

definition guards :: "layer list" where
  "guards =
    [Use ''/api/forms'' (ModuleEnabled ''forms''),
     Use ''/api/submissions'' (ModuleEnabled ''submissions''),
     Use ''/api/discounts'' (ModuleEnabled ''discounts''),
     Use ''/api/staff'' (ModuleEnabled ''staff''),
     Use ''/api/reports'' (FeatureEnabled ''reports''),
     Use ''/api/i18n'' (FeatureEnabled ''i18n''),
     Use ''/api/webhooks'' (FeatureEnabled ''integrationHub''),
     Use ''/api/schedules'' (FeatureEnabled ''exportScheduler'')]"

text \<open>Lines 438 to 600.\<close>

definition routes_after_guards :: "layer list" where
  "routes_after_guards =
    [Route GET ''/api/i18n/:namespace''
       (Proxy (fetch_get ''translation'' I18N_BASE ''/i18n/:namespace'' True)),
     Route GET ''/api/flags/:tenantId''
       (Proxy (fetch_get ''feature-flags'' FLAGS_BASE ''/flags/:tenantId'' False)),
     Route GET ''/api/api-keys/:tenantId''
       (Proxy (fetch_get ''api-program'' API_PROG_BASE ''/api-keys/:tenantId'' False)),
     Route GET ''/api/search'' (Proxy (fetch_get ''search'' SEARCH_BASE ''/search'' True)),
     Route GET ''/api/usage/:tenantId''
       (Proxy (fetch_get ''metering'' METER_BASE ''/usage/:tenantId'' False)),
     Route GET ''/api/webhooks''
       (Proxy (fetch_get ''integration-hub'' INTEG_BASE ''/webhooks'' True)),
     Route GET ''/api/schedules''
       (Proxy (fetch_get ''export-scheduler'' EXPORT_BASE ''/schedules'' True)),
     Route POST ''/api/ai-ml/analyze/sentiment''
       (Proxy (fetch_json POST ''ai-ml'' AI_ML_BASE ''/analyze/sentiment'' ''Content-Type'')),
     Route POST ''/api/ai-ml/analyze/topics''
       (Proxy (fetch_json POST ''ai-ml'' AI_ML_BASE ''/analyze/topics'' ''Content-Type'')),
     Route GET ''/api/ai-ml/insights/:tenantId''
       (Proxy (fetch_get ''ai-ml'' AI_ML_BASE ''/insights/:tenantId'' True)),
     Route POST ''/api/audit/log''
       (Proxy (fetch_json POST ''audit'' AUDIT_BASE ''/audit/log'' ''Content-Type'')),
     Route GET ''/api/audit/:tenantId''
       (Proxy (fetch_get ''audit'' AUDIT_BASE ''/audit/:tenantId'' True)),
     Route GET ''/api/tenants/:tenantId''
       (Proxy (fetch_get ''tenant-isolation'' TENANT_ISOLATION_BASE ''/tenants/:tenantId'' False)),
     Route POST ''/api/tenant-isolation/validate-access''
       (Proxy (fetch_json POST ''tenant-isolation'' TENANT_ISOLATION_BASE ''/validate-access''
                 ''Content-Type''))]"

definition app :: "layer list" where
  "app = front @ routes_before_guards @ guards @ routes_after_guards"

text \<open>
  The walk over the layers. A route handler of this source always answers; a request
  that no layer answers gets the framework's 404.
\<close>

fun run_stack :: "world \<Rightarrow> layer list \<Rightarrow> ctx \<Rightarrow> gateway \<Rightarrow> response \<times> gateway" where
  "run_stack w [] c g = (NotFound, g)"
| "run_stack w (Use mount m # ls) c g =
     (if use_matches mount (path (request c)) then
        (case run_middleware w m c g of
           (Inl r, g') \<Rightarrow> (r, g')
         | (Inr c', g') \<Rightarrow> run_stack w ls c' g')
      else run_stack w ls c g)"
| "run_stack w (Route v pat e # ls) c g =
     (if handles v (verb (request c)) then
        (case route_match pat (path (request c)) of
           None \<Rightarrow> run_stack w ls c g
         | Some ps \<Rightarrow> run_endpoint w e ps c g)
      else run_stack w ls c g)"

definition fresh :: "request \<Rightarrow> ctx" where
  "fresh r = \<lparr>request = r, req_id = [], user = None, entitlements = None\<rparr>"

definition handle :: "world \<Rightarrow> gateway \<Rightarrow> request \<Rightarrow> response \<times> gateway" where
  "handle w g r = run_stack w app (fresh r) g"

text \<open>
  The life of the process: requests, and ticks of the refill timer (line 51), which
  reads the environment of that moment.
\<close>

datatype event = Request world request | Tick process_env

fun run :: "gateway \<Rightarrow> event list \<Rightarrow> response list \<times> gateway" where
  "run g [] = ([], g)"
| "run g (Request w r # evs) =
     (case handle w g r of (resp, g') \<Rightarrow>
        (case run g' evs of (rs, g'') \<Rightarrow> (resp # rs, g'')))"
| "run g (Tick e # evs) = run (refill e g) evs"

subsection \<open>Derived notions used in the statements\<close>

text \<open>The calls issued between two states of the gateway.\<close>

definition calls_of :: "gateway \<Rightarrow> gateway \<Rightarrow> outcall list" where
  "calls_of g g' = drop (length (issued g)) (issued g')"

text \<open>
  A response is relayed when one of the calls made for the request resolved with that
  status and that decoded body.
\<close>

definition relayed :: "world \<Rightarrow> gateway \<Rightarrow> gateway \<Rightarrow> response \<Rightarrow> bool" where
  "relayed w g g' resp =
     (case resp of
        Json st j \<Rightarrow> list_ex (\<lambda>call. fetch w call = Resolves st (Some j)) (calls_of g g')
      | NotFound \<Rightarrow> False)"

text \<open>
  What an answer of the gateway looks like, given the calls \<open>xs\<close> made for the
  request: a relayed downstream answer, or one of the gateway's own, where a 401, 429 or
  502 is the envelope \<open>{message, requestId}\<close> and a 503 is the readiness report.
\<close>

definition accounted :: "world \<Rightarrow> string \<Rightarrow> outcall list \<Rightarrow> response \<Rightarrow> bool" where
  "accounted w rid xs resp =
     ((case resp of
         Json st j \<Rightarrow> list_ex (\<lambda>call. fetch w call = Resolves st (Some j)) xs
       | NotFound \<Rightarrow> False) \<or>
      ((status resp \<in> {401, 429, 502} \<longrightarrow> (\<exists>m. resp = Json (status resp) (envelope m rid))) \<and>
       (status resp = 503 \<longrightarrow>
          (\<exists>entries. resp = Json 503 (JObj [(''ready'', JBool False),
                                             (''status'', JObj entries)])))))"

text \<open>The request gets past the identity check (an open path, or a token that verifies).\<close>

definition identity_ok :: "world \<times> request \<Rightarrow> bool" where
  "identity_ok wr =
     (case fst (auth_entitlements (fst wr) (fresh (snd wr)) \<lparr>TOKENS = 0, issued = []\<rparr>) of
        Inl resp \<Rightarrow> False
      | Inr c \<Rightarrow> True)"

text \<open>The metering notification of \<open>meterWrite\<close>, whatever its tenant and metric.\<close>

definition is_metering :: "world \<Rightarrow> outcall \<Rightarrow> bool" where
  "is_metering w call =
     (http_method call = POST \<and> url call = base_url (env w) METER_BASE @ ''/usage/increment'')"

fun wrapped :: "layer \<Rightarrow> bool" where
  "wrapped (Route v pat (WrapWrite h metric)) = True"
| "wrapped l = False"

text \<open>The text after the last slash of a URL.\<close>

definition after_last_slash :: "string \<Rightarrow> string" where
  "after_last_slash s = rev (takeWhile (\<lambda>c. c \<noteq> CHR ''/'') (rev s))"

text \<open>
  A binding that cannot produce the metering notification: it does not post, or it
  posts to a path whose last segment is a literal other than \<open>increment\<close>.
\<close>

definition plain_target :: "binding \<Rightarrow> bool" where
  "plain_target b =
     (out_method b \<noteq> POST \<or>
      (\<not> with_query b \<and>
       (case segments (target b) of
          None \<Rightarrow> False
        | Some segs \<Rightarrow>
            segs \<noteq> [] \<and> \<not> is_param (last segs) \<and> last segs \<noteq> ''increment'' \<and>
            CHR ''/'' \<notin> set (last segs))))"

fun unmetered :: "layer \<Rightarrow> bool" where
  "unmetered (Use mount m) = True"
| "unmetered (Route v pat (Proxy b)) = plain_target b"
| "unmetered (Route v pat (WrapWrite h metric)) = False"
| "unmetered (Route v pat e) = True"

subsection \<open>Sample collaborators and requests\<close>

definition alice :: principal where
  "alice = \<lparr>claims = JObj [(''id'', JStr ''u7''), (''scopes'', JObj [(''orgId'', JStr ''acme'')])],
            user_id = Some ''u7'',
            scopes = Some \<lparr>orgId = Some ''acme'', businesses = None\<rparr>\<rparr>"

definition forms_off :: json where
  "forms_off = JObj [(''modules'', JObj [(''forms'', JBool False)]),
                     (''features'', JObj [(''i18n'', JBool False)])]"

text \<open>
  Default configuration; the token \<open>good\<close> verifies as \<open>alice\<close>; the entitlement
  service answers \<open>forms_off\<close> for her tenant; the forms service answers 201 to
  \<open>POST /forms\<close>; nothing else is reachable.
\<close>

definition sample_world :: world where
  "sample_world =
     \<lparr>env = \<lparr>vars = (\<lambda>k. None), RATE_TOKENS = None\<rparr>,
      verify = (\<lambda>t s. if t = ''good'' \<and> s = ''dev-secret'' then Some alice else None),
      fetch = (\<lambda>c. if url c = ''http://localhost:7002/entitlements/acme''
                    then Resolves 200 (Some forms_off)
                    else if url c = ''http://localhost:7004/forms'' \<and> http_method c = POST
                    then Resolves 201 (Some (JObj [(''id'', JStr ''abc'')]))
                    else Rejects),
      uuid = ''req-1''\<rparr>"

text \<open>The same with \<open>ENTITLEMENTS_URL\<close> set.\<close>

definition configured_world :: world where
  "configured_world =
     sample_world\<lparr>env := \<lparr>vars = (\<lambda>k. if k = ''ENTITLEMENTS_URL''
                                      then Some ''http://entitlements.internal/entitlements/''
                                      else None),
                          RATE_TOKENS = None\<rparr>\<rparr>"

text \<open>The same with no collaborator reachable and a ceiling of two.\<close>

definition dark_world :: world where
  "dark_world =
     sample_world\<lparr>env := \<lparr>vars = (\<lambda>k. None), RATE_TOKENS = Some 2\<rparr>, fetch := (\<lambda>c. Rejects)\<rparr>"

definition req :: "verb \<Rightarrow> string \<Rightarrow> string option \<Rightarrow> request" where
  "req v p a =
     \<lparr>verb = v, path = p,
      headers = (\<lambda>k. if k = ''authorization'' then a else None),
      query = [], body = JObj []\<rparr>"

section \<open>Properties\<close>

subsection \<open>The front of the pipeline\<close>

text \<open>
  Every request meets the same three layers first: the request id, the identity check
  with the entitlement read, and the admission counter. Only then do routes match.
\<close>

lemma handle_front:
  "handle w g r =
     (case auth_entitlements w (assign_request_id w (fresh r)) g of
        (Inl resp, g1) \<Rightarrow> (resp, g1)
      | (Inr c1, g1) \<Rightarrow>
          (case rate_limit c1 g1 of
             (Inl resp, g2) \<Rightarrow> (resp, g2)
           | (Inr c2, g2) \<Rightarrow>
               run_stack w (routes_before_guards @ guards @ routes_after_guards) c2 g2))"
  by (simp add: handle_def app_def front_def use_matches_def split: prod.splits sum.splits)

lemma fresh_id [simp]:
  "req_id (assign_request_id w (fresh r)) = request_id w r"
  "request (assign_request_id w (fresh r)) = r"
  "user (assign_request_id w (fresh r)) = None"
  "entitlements (assign_request_id w (fresh r)) = None"
  by (simp_all add: assign_request_id_def fresh_def)

subsection \<open>Identity\<close>

text \<open>
  Claim C7. For every request whose path is not exactly \<open>/healthz\<close>, \<open>/readyz\<close> or
  \<open>/auth/login\<close>: when the Authorization header carries no bearer token (no header,
  another scheme, or \<open>Bearer\<close> followed by nothing) the answer is 401 with the message
  \<open>Missing token\<close>; when the token does not verify against the signing secret the
  answer is 401 with the message \<open>Invalid token\<close>. In both cases the state of the
  gateway is untouched: the counter is not decremented and no call has been issued, so no
  later stage has run.
\<close>

theorem identity_rejections:
  assumes "path r \<noteq> ''/healthz''" and "path r \<noteq> ''/readyz''" and "path r \<noteq> ''/auth/login''"
  shows "(bearer_token r = None \<or> bearer_token r = Some [] \<longrightarrow>
            handle w g r = (Json 401 (envelope ''Missing token'' (request_id w r)), g)) \<and>
         (\<forall>t. bearer_token r = Some t \<and> t \<noteq> [] \<and>
               verify w t (env_or (env w) ''JWT_SECRET'' ''dev-secret'') = None \<longrightarrow>
            handle w g r = (Json 401 (envelope ''Invalid token'' (request_id w r)), g))"
  using assms by (auto simp: handle_front auth_entitlements_def openPaths_def)

theorem identity_rejections_witness:
  "handle sample_world (boot (env sample_world)) (req GET ''/api/brand'' None)
     = (Json 401 (JObj [(''message'', JStr ''Missing token''), (''requestId'', JStr ''req-1'')]),
        \<lparr>TOKENS = 200, issued = []\<rparr>) \<and>
   handle sample_world (boot (env sample_world)) (req GET ''/healthz/'' (Some ''Basic abc''))
     = (Json 401 (JObj [(''message'', JStr ''Missing token''), (''requestId'', JStr ''req-1'')]),
        \<lparr>TOKENS = 200, issued = []\<rparr>) \<and>
   handle sample_world (boot (env sample_world)) (req GET ''/api/brand'' (Some ''Bearer forged''))
     = (Json 401 (JObj [(''message'', JStr ''Invalid token''), (''requestId'', JStr ''req-1'')]),
        \<lparr>TOKENS = 200, issued = []\<rparr>)"
  using identity_rejections [of "req GET ''/api/brand'' None" sample_world
          "boot (env sample_world)"]
        identity_rejections [of "req GET ''/healthz/'' (Some ''Basic abc'')" sample_world
          "boot (env sample_world)"]
        identity_rejections [of "req GET ''/api/brand'' (Some ''Bearer forged'')" sample_world
          "boot (env sample_world)"]
  by (simp add: req_def bearer_token_def sample_world_def env_or_def request_id_def
        envelope_def boot_def rate_ceiling_def)

subsection \<open>The health probe\<close>

lemma healthz_route:
  assumes "verb (request c) = GET" and "path (request c) = ''/healthz''"
  shows "run_stack w (routes_before_guards @ guards @ routes_after_guards) c g =
           (Json 200 (JObj [(''status'', JStr ''ok''), (''requestId'', JStr (req_id c))]), g)"
  using assms
  by (simp add: routes_before_guards_def handles_def route_match_def segments_def
        strip_slash_def is_param_def)

text \<open>
  Claim C3, as stated: every \<open>GET /healthz\<close> is answered 200 whatever the admission
  counter holds. The counter's middleware is registered before the route and exempts no
  path, so with the counter at zero the probe is answered 429.
\<close>

theorem healthz_counterexample:
  "handle sample_world \<lparr>TOKENS = 0, issued = []\<rparr> (req GET ''/healthz'' None)
     = (Json 429 (JObj [(''message'', JStr ''Too many requests''),
                        (''requestId'', JStr ''req-1'')]),
        \<lparr>TOKENS = 0, issued = []\<rparr>)"
  by (simp add: handle_front auth_entitlements_def openPaths_def rate_limit_def req_def
        request_id_def sample_world_def envelope_def)

text \<open>
  Claim C3, amended. For every \<open>GET /healthz\<close>, whatever its headers (no token is
  asked for): while the admission counter is above zero the answer is 200 with the body
  \<open>{status: "ok", requestId}\<close> and the counter goes down by one; with the counter at
  zero or below the answer is 429 \<open>Too many requests\<close> with the request id.
\<close>

theorem healthz_admission:
  assumes "verb r = GET" and "path r = ''/healthz''"
  shows "handle w g r =
           (if TOKENS g \<le> 0
            then (Json 429 (envelope ''Too many requests'' (request_id w r)), g)
            else (Json 200 (JObj [(''status'', JStr ''ok''),
                                  (''requestId'', JStr (request_id w r))]),
                  g\<lparr>TOKENS := TOKENS g - 1\<rparr>))"
  using assms
  by (simp add: handle_front auth_entitlements_def openPaths_def rate_limit_def healthz_route)

theorem healthz_admission_witness:
  "handle sample_world (boot (env sample_world)) (req GET ''/healthz'' (Some ''Bearer forged''))
     = (Json 200 (JObj [(''status'', JStr ''ok''), (''requestId'', JStr ''req-1'')]),
        \<lparr>TOKENS = 199, issued = []\<rparr>)"
  using healthz_admission [of "req GET ''/healthz'' (Some ''Bearer forged'')" sample_world
          "boot (env sample_world)"]
  by (simp add: req_def sample_world_def request_id_def boot_def rate_ceiling_def)

lemma auth_shape:
  assumes "auth_entitlements w c g = (x, g1)"
  shows "TOKENS g1 = TOKENS g \<and>
         (case x of
            Inl resp \<Rightarrow> g1 = g \<and> (\<exists>m. resp = Json 401 (envelope m (req_id c)))
          | Inr c1 \<Rightarrow> req_id c1 = req_id c \<and> request c1 = request c \<and>
              (g1 = g \<or> (\<exists>u. g1 = issue (get_call u) g)))"
  using assms
  by (auto simp: auth_entitlements_def Let_def issue_def split: if_splits option.splits)

lemma identity_ok_next:
  assumes "identity_ok (w, r)" and "request c = r"
  shows "\<exists>c1 g1. auth_entitlements w c g = (Inr c1, g1)"
  using assms
  by (auto simp: identity_ok_def auth_entitlements_def fresh_def Let_def
        split: if_splits option.splits)

subsection \<open>Entitlement resolution\<close>

text \<open>
  Claim C9. Once the token has verified, the middleware never answers: it calls
  \<open>next()\<close> with \<open>req.user\<close> and \<open>req.entitlements\<close> set, whatever the
  entitlement call does. When that call throws, resolves with a status outside 200 to 299,
  or resolves with a body that does not decode, the entitlement set is the empty one,
  \<open>{modules: {}, features: {}}\<close>, and the request goes on to the admission counter and
  the routes with it.
\<close>

theorem entitlements_fail_open:
  assumes "path r \<notin> set openPaths"
    and "bearer_token r = Some t" and "t \<noteq> []"
    and "verify w t (env_or (env w) ''JWT_SECRET'' ''dev-secret'') = Some decoded"
  shows "(\<exists>ent. auth_entitlements w (assign_request_id w (fresh r)) g =
            (Inr \<lparr>request = r, req_id = request_id w r, user = Some decoded,
                  entitlements = Some ent\<rparr>,
             issue (get_call (entitlements_url (env w) (tenantId_of (Some decoded)))) g)) \<and>
         (fetch w (get_call (entitlements_url (env w) (tenantId_of (Some decoded)))) = Rejects \<or>
          (\<exists>st b. fetch w (get_call (entitlements_url (env w) (tenantId_of (Some decoded))))
                     = Resolves st b \<and> (\<not> ok st \<or> b = None)) \<longrightarrow>
          handle w g r =
            (case rate_limit \<lparr>request = r, req_id = request_id w r, user = Some decoded,
                              entitlements = Some empty_entitlements\<rparr>
                    (issue (get_call (entitlements_url (env w) (tenantId_of (Some decoded)))) g) of
               (Inl resp, g2) \<Rightarrow> (resp, g2)
             | (Inr c2, g2) \<Rightarrow>
                 run_stack w (routes_before_guards @ guards @ routes_after_guards) c2 g2))"
proof -
  let ?call = "get_call (entitlements_url (env w) (tenantId_of (Some decoded)))"
  have step: "auth_entitlements w (assign_request_id w (fresh r)) g =
      (Inr \<lparr>request = r, req_id = request_id w r, user = Some decoded,
            entitlements = Some (resolve_entitlements (fetch w ?call))\<rparr>, issue ?call g)"
    using assms by (simp add: auth_entitlements_def assign_request_id_def fresh_def Let_def)
  have empty: "resolve_entitlements (fetch w ?call) = empty_entitlements"
    if "fetch w ?call = Rejects \<or>
        (\<exists>st b. fetch w ?call = Resolves st b \<and> (\<not> ok st \<or> b = None))"
    using that by (auto simp: resolve_entitlements_def)
  show ?thesis
    using step empty by (auto simp: handle_front)
qed

theorem entitlements_fail_open_witness:
  "handle dark_world (boot (env dark_world)) (req GET ''/api/v1/me'' (Some ''Bearer good''))
     = (Json 200 (JObj [(''user'', claims alice),
                        (''entitlements'', JObj [(''modules'', JObj []), (''features'', JObj [])]),
                        (''requestId'', JStr ''req-1'')]),
        \<lparr>TOKENS = 1,
          issued = [get_call ''http://localhost:7002/entitlements/acme'']\<rparr>)"
  using entitlements_fail_open [of "req GET ''/api/v1/me'' (Some ''Bearer good'')" "''good''"
          dark_world alice "boot (env dark_world)"]
  by (simp add: req_def bearer_token_def dark_world_def sample_world_def env_or_def
        request_id_def openPaths_def alice_def tenantId_of_def js_or_def entitlements_url_def
        boot_def rate_ceiling_def rate_limit_def issue_def get_call_def empty_entitlements_def
        routes_before_guards_def handles_def route_match_def segments_def strip_slash_def
        is_param_def lower_def me_def)

text \<open>
  Claim C2, at a failing input. With \<open>ENTITLEMENTS_URL\<close> set, line 36 fetches that
  address as it stands: the tenant is appended to the hardcoded default only. Every
  tenant is read from one and the same URL, and the call issued for \<open>alice\<close>, whose
  tenant is \<open>acme\<close>, does not name her tenant.
\<close>

theorem entitlements_url_configured:
  "(\<forall>tenantId. entitlements_url (env configured_world) tenantId
       = ''http://entitlements.internal/entitlements/'') \<and>
   tenantId_of (Some alice) = ''acme'' \<and>
   snd (handle configured_world (boot (env configured_world))
          (req GET ''/api/v1/me'' (Some ''Bearer good'')))
     = \<lparr>TOKENS = 199, issued = [get_call ''http://entitlements.internal/entitlements/'']\<rparr>"
  by (simp add: handle_front req_def bearer_token_def configured_world_def sample_world_def
        env_or_def auth_entitlements_def
        request_id_def openPaths_def alice_def tenantId_of_def js_or_def entitlements_url_def
        boot_def rate_ceiling_def rate_limit_def issue_def get_call_def
        routes_before_guards_def handles_def route_match_def segments_def strip_slash_def
        is_param_def lower_def me_def)

lemma entitlements_url_default:
  "vars e ''ENTITLEMENTS_URL'' = None \<Longrightarrow>
   entitlements_url e tenantId = ''http://localhost:7002/entitlements/'' @ tenantId"
  by (simp add: entitlements_url_def env_or_def)

subsection \<open>Dispatch\<close>

text \<open>
  Claim C6. On every proxied route, when the downstream call resolves and its body
  decodes, the gateway answers with the downstream status and the decoded body, both
  unchanged; one call has been issued.
\<close>

theorem dispatch_passthrough:
  assumes "fetch w (outbound w b ps c) = Resolves st (Some j)"
  shows "run_endpoint w (Proxy b) ps c g = (Json st j, issue (outbound w b ps c) g)"
  using assms by (simp add: proxy_def)

theorem dispatch_passthrough_witness:
  "run_endpoint sample_world
     (Proxy (fetch_json POST ''forms'' FORMS_BASE ''/forms'' ''content-type'')) []
     \<lparr>request = req POST ''/api/forms'' (Some ''Bearer good''), req_id = ''req-1'',
       user = Some alice, entitlements = Some forms_off\<rparr>
     \<lparr>TOKENS = 199, issued = []\<rparr>
   = (Json 201 (JObj [(''id'', JStr ''abc'')]),
      \<lparr>TOKENS = 199,
        issued = [\<lparr>http_method = POST, url = ''http://localhost:7004/forms'',
                    out_headers = [(''content-type'', ''application/json'')],
                    payload = Some (JObj [])\<rparr>]\<rparr>)"
  using dispatch_passthrough [of sample_world
          "fetch_json POST ''forms'' FORMS_BASE ''/forms'' ''content-type''" "[]"
          "\<lparr>request = req POST ''/api/forms'' (Some ''Bearer good''), req_id = ''req-1'',
            user = Some alice, entitlements = Some forms_off\<rparr>"
          201 "JObj [(''id'', JStr ''abc'')]" "\<lparr>TOKENS = 199, issued = []\<rparr>"]
  by (simp add: sample_world_def outbound_def fetch_json_def base_url_def FORMS_BASE_def
        env_or_def instantiate_def segments_def is_param_def header_of_def req_def issue_def)

lemma split_slash_plain: "CHR ''/'' \<notin> set i \<Longrightarrow> split_slash i = [i]"
  by (induction i) auto

lemma org_route:
  assumes "verb (request c) = GET" and "path (request c) = ''/api/org/'' @ i"
    and "i \<noteq> []" and "CHR ''/'' \<notin> set i"
  shows "run_stack w (routes_before_guards @ guards @ routes_after_guards) c g =
           proxy w (fetch_get ''org'' ORG_BASE ''/org/:id'' False) [(''id'', i)] c g"
  using assms
  by (simp add: routes_before_guards_def handles_def route_match_def segments_def
        strip_slash_def is_param_def lower_def split_slash_plain)

text \<open>
  Claim C5. On every proxied route, when the downstream call fails in transport (the
  \<open>fetch\<close> rejects, which is what a refused connection and a timeout do, or the body
  does not decode), the gateway answers 502 with the body
  \<open>{message: "<label>-service unavailable", requestId}\<close> and nothing else in it. For
  \<open>GET /api/org/:id\<close> the label is \<open>org\<close>: any such request that gets past
  identity and admission while the org service fails is answered
  \<open>org-service unavailable\<close>. The second part is stated for an id without a percent
  sign: such an id is the \<open>req.params.id\<close> that the handler sees, since decoding
  leaves it as it is, whereas an id with an escape is decoded by the framework before the
  handler runs, or refused with 400 when the escape is malformed.
\<close>

theorem dispatch_failure:
  "(fetch w (outbound w b ps c) = Rejects \<or> (\<exists>st. fetch w (outbound w b ps c) = Resolves st None)
      \<longrightarrow> run_endpoint w (Proxy b) ps c g =
            (Json 502 (JObj [(''message'', JStr (label b @ ''-service unavailable'')),
                             (''requestId'', JStr (req_id c))]),
             issue (outbound w b ps c) g)) \<and>
   (verb r = GET \<and> path r = ''/api/org/'' @ i \<and> i \<noteq> [] \<and> CHR ''/'' \<notin> set i \<and>
    CHR ''%'' \<notin> set i \<and> identity_ok (w, r) \<and> 0 < TOKENS g \<and>
    (fetch w (get_call (base_url (env w) ORG_BASE @ ''/org/'' @ i)) = Rejects \<or>
     (\<exists>st. fetch w (get_call (base_url (env w) ORG_BASE @ ''/org/'' @ i)) = Resolves st None))
      \<longrightarrow> fst (handle w g r) =
            Json 502 (JObj [(''message'', JStr ''org-service unavailable''),
                            (''requestId'', JStr (request_id w r))]))"
proof (intro conjI impI)
  assume "fetch w (outbound w b ps c) = Rejects \<or>
          (\<exists>st. fetch w (outbound w b ps c) = Resolves st None)"
  then show "run_endpoint w (Proxy b) ps c g =
      (Json 502 (JObj [(''message'', JStr (label b @ ''-service unavailable'')),
                       (''requestId'', JStr (req_id c))]),
       issue (outbound w b ps c) g)"
    by (auto simp: proxy_def envelope_def)
next
  let ?u = "base_url (env w) ORG_BASE @ ''/org/'' @ i"
  assume a: "verb r = GET \<and> path r = ''/api/org/'' @ i \<and> i \<noteq> [] \<and> CHR ''/'' \<notin> set i \<and>
    CHR ''%'' \<notin> set i \<and> identity_ok (w, r) \<and> 0 < TOKENS g \<and>
    (fetch w (get_call ?u) = Rejects \<or> (\<exists>st. fetch w (get_call ?u) = Resolves st None))"
  then obtain c1 g1
    where au: "auth_entitlements w (assign_request_id w (fresh r)) g = (Inr c1, g1)"
    using identity_ok_next [of w r "assign_request_id w (fresh r)" g] by auto
  from auth_shape [OF au]
  have tk: "TOKENS g1 = TOKENS g" and id: "req_id c1 = request_id w r" and rq: "request c1 = r"
    by simp_all
  have out: "outbound w (fetch_get ''org'' ORG_BASE ''/org/:id'' False) [(''id'', i)] c1
               = get_call ?u"
    by (simp add: outbound_def fetch_get_def get_call_def instantiate_def segments_def
          is_param_def)
  have "handle w g r =
      proxy w (fetch_get ''org'' ORG_BASE ''/org/:id'' False) [(''id'', i)] c1
        (g1\<lparr>TOKENS := TOKENS g1 - 1\<rparr>)"
    using a au tk rq by (simp add: handle_front rate_limit_def org_route)
  then show "fst (handle w g r) =
      Json 502 (JObj [(''message'', JStr ''org-service unavailable''),
                      (''requestId'', JStr (request_id w r))])"
    using a id out by (auto simp: proxy_def envelope_def fetch_get_def)
qed

theorem dispatch_failure_witness:
  "fst (handle sample_world (boot (env sample_world))
          (req GET ''/api/org/42'' (Some ''Bearer good'')))
     = Json 502 (JObj [(''message'', JStr ''org-service unavailable''),
                       (''requestId'', JStr ''req-1'')]) \<and>
   run_endpoint dark_world
     (Proxy (fetch_delete ''staff'' STAFF_BASE ''/staff/:id'')) [(''id'', ''s1'')]
     \<lparr>request = req DELETE ''/api/staff/s1'' (Some ''Bearer good''), req_id = ''req-1'',
       user = Some alice, entitlements = Some empty_entitlements\<rparr>
     \<lparr>TOKENS = 1, issued = []\<rparr>
   = (Json 502 (JObj [(''message'', JStr ''staff-service unavailable''),
                      (''requestId'', JStr ''req-1'')]),
      \<lparr>TOKENS = 1,
        issued = [\<lparr>http_method = DELETE, url = ''http://localhost:3007/staff/s1'',
                    out_headers = [], payload = None\<rparr>]\<rparr>)"
  using dispatch_failure [where w = dark_world
          and b = "fetch_delete ''staff'' STAFF_BASE ''/staff/:id''"
          and ps = "[(''id'', ''s1'')]"
          and c = "\<lparr>request = req DELETE ''/api/staff/s1'' (Some ''Bearer good''),
                    req_id = ''req-1'', user = Some alice,
                    entitlements = Some empty_entitlements\<rparr>"
          and g = "\<lparr>TOKENS = 1, issued = []\<rparr>"
          and r = "req GET ''/healthz'' None" and i = "[]"]
        dispatch_failure [where w = sample_world
          and b = "fetch_get ''org'' ORG_BASE ''/org/:id'' False" and ps = "[]"
          and c = "fresh (req GET ''/api/org/42'' (Some ''Bearer good''))"
          and g = "boot (env sample_world)"
          and r = "req GET ''/api/org/42'' (Some ''Bearer good'')" and i = "''42''"]
  by (simp add: identity_ok_def auth_entitlements_def openPaths_def bearer_token_def fresh_def
        req_def sample_world_def dark_world_def env_or_def base_url_def ORG_BASE_def
        STAFF_BASE_def get_call_def request_id_def boot_def rate_ceiling_def outbound_def
        fetch_delete_def fetch_get_def instantiate_def segments_def is_param_def issue_def
        proxy_def Let_def)

subsection \<open>Gates\<close>

text \<open>
  Claim C1, at a failing input. \<open>alice\<close>'s tenant has \<open>modules.forms === false\<close>.
  Her \<open>POST /api/forms\<close> is matched by the route of line 126, whose handler answers
  without calling \<open>next()\<close>; the guard \<open>app.use('/api/forms', moduleEnabled('forms'))\<close>
  of line 428 lies after it in the stack and is never reached. The forms service is called
  and its 201 is relayed.
\<close>

theorem forms_gate_bypassed:
  "handle sample_world (boot (env sample_world)) (req POST ''/api/forms'' (Some ''Bearer good''))
     = (Json 201 (JObj [(''id'', JStr ''abc'')]),
        \<lparr>TOKENS = 199,
          issued = [get_call ''http://localhost:7002/entitlements/acme'',
                    \<lparr>http_method = POST, url = ''http://localhost:7004/forms'',
                      out_headers = [(''content-type'', ''application/json'')],
                      payload = Some (JObj [])\<rparr>]\<rparr>) \<and>
   resolve_entitlements (fetch sample_world (get_call ''http://localhost:7002/entitlements/acme''))
     = forms_off \<and>
   js_prop (entitlement_group (Some forms_off) ''modules'') ''forms'' = Some (JBool False)"
  by (simp add: handle_front req_def bearer_token_def sample_world_def
        env_or_def auth_entitlements_def resolve_entitlements_def ok_def forms_off_def
        request_id_def openPaths_def alice_def tenantId_of_def js_or_def entitlements_url_def
        boot_def rate_ceiling_def rate_limit_def issue_def get_call_def entitlement_group_def
        routes_before_guards_def handles_def route_match_def segments_def strip_slash_def
        is_param_def lower_def proxy_def outbound_def fetch_get_def fetch_json_def
        base_url_def ORG_BASE_def FORMS_BASE_def instantiate_def header_of_def Let_def)

text \<open>
  Where the guard is registered before the route it works: the same tenant has
  \<open>features.i18n === false\<close>, and \<open>GET /api/i18n/common\<close> is answered 403 with
  no call to the translation service. So does the forms guard on a request that no
  earlier route answers. Neither 403 body carries the request id.
\<close>

lemma registered_gates_deny:
  "handle sample_world (boot (env sample_world))
     (req GET ''/api/i18n/common'' (Some ''Bearer good''))
     = (Json 403 (JObj [(''message'', JStr ''Feature disabled: i18n'')]),
        \<lparr>TOKENS = 199, issued = [get_call ''http://localhost:7002/entitlements/acme'']\<rparr>)"
  "handle sample_world (boot (env sample_world))
     (req PUT ''/api/forms/f1'' (Some ''Bearer good''))
     = (Json 403 (JObj [(''message'', JStr ''Module disabled: forms'')]),
        \<lparr>TOKENS = 199, issued = [get_call ''http://localhost:7002/entitlements/acme'']\<rparr>)"
  by (simp_all add: handle_front req_def bearer_token_def sample_world_def
        env_or_def auth_entitlements_def resolve_entitlements_def ok_def forms_off_def
        request_id_def openPaths_def alice_def tenantId_of_def js_or_def entitlements_url_def
        boot_def rate_ceiling_def rate_limit_def issue_def get_call_def entitlement_group_def
        routes_before_guards_def guards_def routes_after_guards_def
        handles_def route_match_def use_matches_def segments_def strip_slash_def
        is_param_def lower_def moduleEnabled_def featureEnabled_def Let_def)

subsection \<open>Admission\<close>

lemma meterWrite_issue: "meterWrite w t m g = issue (meter_call w t m) g"
  by (simp add: meterWrite_def Let_def split: fetch_result.splits)

lemma endpoint_tokens: "TOKENS (snd (run_endpoint w e ps c g)) = TOKENS g"
proof (induction e arbitrary: g)
  case (Proxy b)
  show ?case
    by (simp add: proxy_def Let_def issue_def split: fetch_result.splits option.splits)
next
  case (WrapWrite h metric)
  then show ?case
    by (simp add: Let_def meterWrite_issue issue_def case_prod_beta)
next
  case ReadyzFull
  show ?case by (simp add: readyz_full_def Let_def)
qed simp_all

lemma rest_tokens:
  "TOKENS (snd (run_stack w (routes_before_guards @ guards @ routes_after_guards) c g)) = TOKENS g"
proof -
  have gen: "TOKENS (snd (run_stack w ls c g)) = TOKENS g"
    if "\<forall>mount. Use mount AuthEntitlements \<notin> set ls \<and> Use mount RateLimit \<notin> set ls" for ls c g
    using that
  proof (induction ls arbitrary: c g)
    case Nil
    show ?case by simp
  next
    case (Cons l ls)
    show ?case
    proof (cases l)
      case (Use mount m)
      with Cons show ?thesis
        by (cases m) (auto split: prod.splits sum.splits)
    next
      case (Route v pat e)
      with Cons show ?thesis
        by (auto simp: endpoint_tokens split: option.splits)
    qed
  qed
  show ?thesis
    by (rule gen) (simp add: routes_before_guards_def guards_def routes_after_guards_def)
qed

lemma handle_admitted:
  assumes "identity_ok (w, r)" and "0 < TOKENS g"
  shows "TOKENS (snd (handle w g r)) = TOKENS g - 1"
proof -
  obtain c1 g1 where au: "auth_entitlements w (assign_request_id w (fresh r)) g = (Inr c1, g1)"
    using identity_ok_next [OF assms(1), of "assign_request_id w (fresh r)" g] by auto
  from auth_shape [OF au] have "TOKENS g1 = TOKENS g" by simp
  with au assms(2) show ?thesis
    by (simp add: handle_front rate_limit_def rest_tokens)
qed

lemma handle_rejected:
  assumes "identity_ok (w, r)" and "TOKENS g \<le> 0"
  shows "fst (handle w g r) = Json 429 (envelope ''Too many requests'' (request_id w r))"
    and "TOKENS (snd (handle w g r)) = TOKENS g"
proof -
  obtain c1 g1 where au: "auth_entitlements w (assign_request_id w (fresh r)) g = (Inr c1, g1)"
    using identity_ok_next [OF assms(1), of "assign_request_id w (fresh r)" g] by auto
  from auth_shape [OF au] have "TOKENS g1 = TOKENS g" and "req_id c1 = request_id w r" by simp_all
  with au assms(2)
  show "fst (handle w g r) = Json 429 (envelope ''Too many requests'' (request_id w r))"
    and "TOKENS (snd (handle w g r)) = TOKENS g"
    by (simp_all add: handle_front rate_limit_def)
qed

lemma handle_tokens:
  "TOKENS (snd (handle w g r)) = TOKENS g \<or>
   (0 < TOKENS g \<and> TOKENS (snd (handle w g r)) = TOKENS g - 1)"
proof (cases "auth_entitlements w (assign_request_id w (fresh r)) g")
  case (Pair x g1)
  from auth_shape [OF Pair] have tk: "TOKENS g1 = TOKENS g" by simp
  show ?thesis
  proof (cases x)
    case (Inl resp)
    with Pair auth_shape [OF Pair] show ?thesis by (simp add: handle_front)
  next
    case (Inr c1)
    with Pair tk show ?thesis
      by (simp add: handle_front rate_limit_def rest_tokens)
  qed
qed

lemma run_snd_Request [simp]:
  "snd (run g (Request w r # evs)) = snd (run (snd (handle w g r)) evs)"
  by (simp split: prod.splits)

lemma run_nonneg:
  assumes "0 \<le> TOKENS g" and "\<forall>e'. Tick e' \<in> set evs \<longrightarrow> 0 \<le> rate_ceiling e'"
  shows "0 \<le> TOKENS (snd (run g evs))"
  using assms
proof (induction evs arbitrary: g)
  case Nil
  then show ?case by simp
next
  case (Cons ev evs)
  show ?case
  proof (cases ev)
    case (Request w r)
    have "0 \<le> TOKENS (snd (handle w g r))"
      using handle_tokens [of w g r] Cons.prems(1) by auto
    with Cons Request show ?thesis
      by (simp del: run.simps)
  next
    case (Tick e')
    with Cons show ?thesis
      by (simp add: refill_def)
  qed
qed

lemma run_admits:
  assumes "list_all identity_ok rs" and "int (length rs) \<le> TOKENS g"
  shows "TOKENS (snd (run g (map (\<lambda>(w, r). Request w r) rs))) = TOKENS g - int (length rs)"
  using assms
proof (induction rs arbitrary: g)
  case Nil
  then show ?case by simp
next
  case (Cons wr rs)
  obtain w r where wr: "wr = (w, r)" by (cases wr)
  from Cons.prems wr have "identity_ok (w, r)" and pos: "0 < TOKENS g" by auto
  then have step: "TOKENS (snd (handle w g r)) = TOKENS g - 1"
    by (rule handle_admitted)
  have "TOKENS (snd (run (snd (handle w g r)) (map (\<lambda>(w, r). Request w r) rs)))
          = TOKENS (snd (handle w g r)) - int (length rs)"
    using Cons.prems step by (intro Cons.IH) auto
  with step wr show ?case
    by (simp del: run.simps)
qed

text \<open>
  Claim C8. With a configured ceiling \<open>N\<close> (200 when \<open>RATE_TOKENS\<close> is unset) the
  counter starts at \<open>N\<close>. A request that reaches the admission stage while the counter
  is above zero takes exactly one from it; one that reaches it at zero or below is
  answered 429 and the counter stays as it is. Hence the counter is never negative,
  whatever the requests and the refills (each refill at a ceiling that is not negative);
  after \<open>N\<close> admissions with no refill between them the next request to reach the stage
  is answered 429; and a tick of the timer sets the counter to the ceiling that the
  environment holds at the tick.
\<close>

theorem admission_counter:
  assumes "rate_ceiling e = int N"
  shows "TOKENS (boot e) = int N \<and>
         (RATE_TOKENS e = None \<longrightarrow> N = 200) \<and>
         (\<forall>w r g. identity_ok (w, r) \<and> 0 < TOKENS g \<longrightarrow>
            TOKENS (snd (handle w g r)) = TOKENS g - 1) \<and>
         (\<forall>w r g. identity_ok (w, r) \<and> TOKENS g \<le> 0 \<longrightarrow>
            fst (handle w g r) = Json 429 (envelope ''Too many requests'' (request_id w r)) \<and>
            TOKENS (snd (handle w g r)) = TOKENS g) \<and>
         (\<forall>evs. (\<forall>e'. Tick e' \<in> set evs \<longrightarrow> 0 \<le> rate_ceiling e') \<longrightarrow>
            0 \<le> TOKENS (snd (run (boot e) evs))) \<and>
         (\<forall>rs w r. list_all identity_ok rs \<and> length rs = N \<and> identity_ok (w, r) \<longrightarrow>
            fst (handle w (snd (run (boot e) (map (\<lambda>(w, r). Request w r) rs))) r)
              = Json 429 (envelope ''Too many requests'' (request_id w r))) \<and>
         (\<forall>e' g evs. run g (Tick e' # evs) = run (g\<lparr>TOKENS := rate_ceiling e'\<rparr>) evs)"
proof (intro conjI allI impI)
  show "TOKENS (boot e) = int N"
    using assms by (simp add: boot_def)
  show "N = 200" if "RATE_TOKENS e = None"
    using assms that by (simp add: rate_ceiling_def)
  show "TOKENS (snd (handle w g r)) = TOKENS g - 1" if "identity_ok (w, r) \<and> 0 < TOKENS g" for w r g
    using that by (simp add: handle_admitted)
  show "fst (handle w g r) = Json 429 (envelope ''Too many requests'' (request_id w r))"
    if "identity_ok (w, r) \<and> TOKENS g \<le> 0" for w r g
    using that by (simp add: handle_rejected)
  show "TOKENS (snd (handle w g r)) = TOKENS g" if "identity_ok (w, r) \<and> TOKENS g \<le> 0" for w r g
    using that by (simp add: handle_rejected)
  show "0 \<le> TOKENS (snd (run (boot e) evs))"
    if "\<forall>e'. Tick e' \<in> set evs \<longrightarrow> 0 \<le> rate_ceiling e'" for evs
    using that assms by (intro run_nonneg) (simp_all add: boot_def)
  show "fst (handle w (snd (run (boot e) (map (\<lambda>(w, r). Request w r) rs))) r)
          = Json 429 (envelope ''Too many requests'' (request_id w r))"
    if h: "list_all identity_ok rs \<and> length rs = N \<and> identity_ok (w, r)" for rs w r
  proof -
    have "TOKENS (snd (run (boot e) (map (\<lambda>(w, r). Request w r) rs)))
            = TOKENS (boot e) - int (length rs)"
      using h assms by (intro run_admits) (simp_all add: boot_def)
    then have "TOKENS (snd (run (boot e) (map (\<lambda>(w, r). Request w r) rs))) \<le> 0"
      using h assms by (simp add: boot_def)
    with h show ?thesis
      by (simp add: handle_rejected)
  qed
  show "run g (Tick e' # evs) = run (g\<lparr>TOKENS := rate_ceiling e'\<rparr>) evs" for e' g evs
    by (simp add: refill_def)
qed

theorem admission_counter_witness:
  "rate_ceiling (env dark_world) = int 2 \<and>
   run (boot (env dark_world))
     [Request dark_world (req GET ''/healthz'' None),
      Request dark_world (req GET ''/healthz'' None),
      Request dark_world (req GET ''/healthz'' None),
      Tick (env dark_world),
      Request dark_world (req GET ''/healthz'' None)]
   = ([Json 200 (JObj [(''status'', JStr ''ok''), (''requestId'', JStr ''req-1'')]),
       Json 200 (JObj [(''status'', JStr ''ok''), (''requestId'', JStr ''req-1'')]),
       Json 429 (JObj [(''message'', JStr ''Too many requests''), (''requestId'', JStr ''req-1'')]),
       Json 200 (JObj [(''status'', JStr ''ok''), (''requestId'', JStr ''req-1'')])],
      \<lparr>TOKENS = 1, issued = []\<rparr>)"
  using admission_counter [of "env dark_world" 2]
  by (simp add: dark_world_def sample_world_def rate_ceiling_def boot_def refill_def
        handle_front auth_entitlements_def openPaths_def rate_limit_def healthz_route
        req_def request_id_def envelope_def)

subsection \<open>Error answers\<close>

lemma accounted_append:
  "accounted w rid xs resp \<Longrightarrow> accounted w rid (ys @ xs @ zs) resp"
  by (auto simp: accounted_def split: response.splits)

lemma accounted_Nil:
  "status resp \<notin> {401, 429, 502, 503} \<Longrightarrow> accounted w rid xs resp"
  by (simp add: accounted_def)

lemma endpoint_accounted:
  "\<exists>xs. issued (snd (run_endpoint w e ps c g)) = issued g @ xs \<and>
        accounted w (req_id c) xs (fst (run_endpoint w e ps c g))"
proof (induction e arbitrary: g)
  case Healthz
  show ?case by (simp add: accounted_def)
next
  case Readyz
  show ?case by (simp add: accounted_def)
next
  case ReadyzFull
  show ?case by (simp add: readyz_full_def Let_def accounted_def)
next
  case Me
  show ?case by (simp add: me_def accounted_def)
next
  case (Proxy b)
  show ?case
    by (auto simp: proxy_def Let_def issue_def accounted_def
          split: fetch_result.splits option.splits)
next
  case (WrapWrite h metric)
  from WrapWrite [of g] obtain xs
    where xs: "issued (snd (run_endpoint w h ps c g)) = issued g @ xs"
      and acc: "accounted w (req_id c) xs (fst (run_endpoint w h ps c g))"
    by blast
  from acc have "accounted w (req_id c) ([] @ xs @ zs) (fst (run_endpoint w h ps c g))" for zs
    by (rule accounted_append)
  with xs acc show ?case
    by (auto simp: Let_def case_prod_beta meterWrite_issue issue_def)
qed

lemma middleware_accounted:
  assumes "run_middleware w m c g = (x, g')" and "m \<noteq> RequestId"
  shows "\<exists>xs. issued g' = issued g @ xs \<and>
              (case x of
                 Inl resp \<Rightarrow> accounted w (req_id c) xs resp
               | Inr c' \<Rightarrow> req_id c' = req_id c) \<and>
              list_all (\<lambda>call. http_method call = GET) xs"
proof (cases m)
  case AuthEntitlements
  with assms auth_shape [of w c g x g'] show ?thesis
    by (auto simp: accounted_def issue_def get_call_def split: sum.splits)
next
  case RateLimit
  with assms show ?thesis
    by (auto simp: rate_limit_def accounted_def split: if_splits)
next
  case (ModuleEnabled k)
  with assms show ?thesis
    by (auto simp: moduleEnabled_def Let_def accounted_def split: if_splits)
next
  case (FeatureEnabled k)
  with assms show ?thesis
    by (auto simp: featureEnabled_def Let_def accounted_def split: if_splits)
next
  case RequestId
  with assms show ?thesis by simp
qed

lemma stack_accounted:
  assumes "\<forall>mount. Use mount RequestId \<notin> set ls"
  shows "\<exists>xs. issued (snd (run_stack w ls c g)) = issued g @ xs \<and>
              accounted w (req_id c) xs (fst (run_stack w ls c g))"
  using assms
proof (induction ls arbitrary: c g)
  case Nil
  show ?case by (simp add: accounted_def)
next
  case (Cons l ls)
  then have IH: "\<exists>xs. issued (snd (run_stack w ls c' g')) = issued g' @ xs \<and>
              accounted w (req_id c') xs (fst (run_stack w ls c' g'))" for c' g'
    by auto
  show ?case
  proof (cases l)
    case (Route v pat e)
    with IH [of c g] endpoint_accounted [of w e _ c g] show ?thesis
      by (auto split: option.splits)
  next
    case (Use mount m)
    with Cons.prems have m: "m \<noteq> RequestId" by auto
    show ?thesis
    proof (cases "use_matches mount (path (request c))")
      case False
      with Use IH [of c g] show ?thesis by simp
    next
      case True
      obtain x g1 where run: "run_middleware w m c g = (x, g1)"
        by (cases "run_middleware w m c g")
      from middleware_accounted [OF run m] obtain xs
        where xs: "issued g1 = issued g @ xs"
          and sh: "case x of Inl resp \<Rightarrow> accounted w (req_id c) xs resp
                   | Inr c' \<Rightarrow> req_id c' = req_id c"
        by blast
      show ?thesis
      proof (cases x)
        case (Inl resp)
        with Use True run xs sh show ?thesis by simp
      next
        case (Inr c')
        from IH [of c' g1] obtain ys
          where ys: "issued (snd (run_stack w ls c' g1)) = issued g1 @ ys"
            and acc: "accounted w (req_id c') ys (fst (run_stack w ls c' g1))"
          by blast
        from acc have "accounted w (req_id c') (xs @ ys @ []) (fst (run_stack w ls c' g1))"
          by (rule accounted_append)
        with Use True run xs sh ys Inr show ?thesis by simp
      qed
    qed
  qed
qed

text \<open>
  Claim C4, as stated: every 401, 403, 429, 502 and 503 of the gateway carries
  \<open>message\<close> and \<open>requestId\<close>. The 503 of \<open>/readyz/full\<close> is a readiness
  report, \<open>{ready: false, status: {...}}\<close>, and has neither field.
\<close>

theorem readiness_counterexample:
  "fst (handle sample_world (boot (env sample_world))
          (req GET ''/readyz/full'' (Some ''Bearer good'')))
     = Json 503 (JObj [(''ready'', JBool False),
                       (''status'', JObj [(''org'', JBool False), (''forms'', JBool False),
                                          (''submissions'', JBool False),
                                          (''discounts'', JBool False),
                                          (''staff'', JBool False)])]) \<and>
   js_prop (JObj [(''ready'', JBool False),
                  (''status'', JObj [(''org'', JBool False), (''forms'', JBool False),
                                     (''submissions'', JBool False),
                                     (''discounts'', JBool False),
                                     (''staff'', JBool False)])]) ''message'' = None \<and>
   js_prop (JObj [(''ready'', JBool False),
                  (''status'', JObj [(''org'', JBool False), (''forms'', JBool False),
                                     (''submissions'', JBool False),
                                     (''discounts'', JBool False),
                                     (''staff'', JBool False)])]) ''requestId'' = None"
  by (simp add: handle_front req_def bearer_token_def sample_world_def
        env_or_def auth_entitlements_def resolve_entitlements_def ok_def forms_off_def
        request_id_def openPaths_def alice_def tenantId_of_def js_or_def entitlements_url_def
        boot_def rate_ceiling_def rate_limit_def issue_def get_call_def
        routes_before_guards_def handles_def route_match_def segments_def strip_slash_def
        is_param_def lower_def readyz_full_def base_url_def ORG_BASE_def FORMS_BASE_def
        SUBMISSIONS_BASE_def DISCOUNTS_BASE_def STAFF_BASE_def Let_def)

text \<open>
  Claim C4, amended. Every answer of the gateway with status 401, 429 or 502 that is not
  a relayed downstream answer is a JSON body of exactly \<open>message\<close> and the request's
  \<open>requestId\<close>; every 503 that is not relayed is the readiness report
  \<open>{ready: false, status: {...}}\<close>.
\<close>

theorem error_envelopes:
  assumes "handle w g r = (resp, g')" and "\<not> relayed w g g' resp"
  shows "(status resp \<in> {401, 429, 502} \<longrightarrow>
            (\<exists>m. resp = Json (status resp) (envelope m (request_id w r)))) \<and>
         (status resp = 503 \<longrightarrow>
            (\<exists>entries. resp = Json 503 (JObj [(''ready'', JBool False),
                                               (''status'', JObj entries)])))"
proof -
  let ?rest = "Use ''/'' AuthEntitlements # Use ''/'' RateLimit #
               routes_before_guards @ guards @ routes_after_guards"
  have no: "\<forall>mount. Use mount RequestId \<notin> set ?rest"
    by (simp add: routes_before_guards_def guards_def routes_after_guards_def)
  have h: "handle w g r = run_stack w ?rest (assign_request_id w (fresh r)) g"
    by (simp add: handle_def app_def front_def use_matches_def)
  from h assms(1)
  have eq: "run_stack w ?rest (assign_request_id w (fresh r)) g = (resp, g')"
    by (simp del: run_stack.simps)
  have "\<exists>xs. issued (snd (run_stack w ?rest (assign_request_id w (fresh r)) g)) = issued g @ xs \<and>
             accounted w (req_id (assign_request_id w (fresh r))) xs
               (fst (run_stack w ?rest (assign_request_id w (fresh r)) g))"
    by (rule stack_accounted [OF no])
  then obtain xs where xs: "issued g' = issued g @ xs"
    and acc: "accounted w (request_id w r) xs resp"
    unfolding eq by (auto simp del: run_stack.simps)
  from xs have "calls_of g g' = xs"
    by (simp add: calls_of_def)
  with assms(2) acc show ?thesis
    by (simp add: accounted_def relayed_def split: response.splits)
qed

theorem error_envelopes_witness:
  "handle sample_world (boot (env sample_world)) (req GET ''/api/org/42'' (Some ''Bearer good''))
     = (Json 502 (envelope ''org-service unavailable'' ''req-1''),
        \<lparr>TOKENS = 199,
          issued = [get_call ''http://localhost:7002/entitlements/acme'',
                    get_call ''http://localhost:7003/org/42'']\<rparr>) \<and>
   \<not> relayed sample_world (boot (env sample_world))
        \<lparr>TOKENS = 199,
          issued = [get_call ''http://localhost:7002/entitlements/acme'',
                    get_call ''http://localhost:7003/org/42'']\<rparr>
        (Json 502 (envelope ''org-service unavailable'' ''req-1''))"
  using error_envelopes [of sample_world "boot (env sample_world)"
          "req GET ''/api/org/42'' (Some ''Bearer good'')"
          "Json 502 (envelope ''org-service unavailable'' ''req-1'')"
          "\<lparr>TOKENS = 199,
            issued = [get_call ''http://localhost:7002/entitlements/acme'',
                      get_call ''http://localhost:7003/org/42'']\<rparr>"]
  by (simp add: handle_front req_def bearer_token_def sample_world_def
        env_or_def auth_entitlements_def resolve_entitlements_def ok_def forms_off_def
        request_id_def openPaths_def alice_def tenantId_of_def js_or_def entitlements_url_def
        boot_def rate_ceiling_def rate_limit_def issue_def get_call_def
        routes_before_guards_def handles_def route_match_def segments_def strip_slash_def
        is_param_def lower_def proxy_def outbound_def fetch_get_def base_url_def ORG_BASE_def
        instantiate_def relayed_def calls_of_def envelope_def Let_def)

subsection \<open>Metering\<close>

lemma after_last_slash_tail:
  assumes "CHR ''/'' \<notin> set l"
  shows "after_last_slash (x @ CHR ''/'' # l) = l"
proof -
  have "takeWhile (\<lambda>c. c \<noteq> CHR ''/'') (rev l @ CHR ''/'' # rev x) = rev l"
    using assms by (auto simp: takeWhile_tail)
  then show ?thesis
    by (simp add: after_last_slash_def)
qed

lemma concat_map_last:
  "xs \<noteq> [] \<Longrightarrow> concat (map f xs) = concat (map f (butlast xs)) @ f (last xs)"
  by (induction xs) auto

lemma instantiate_tail:
  assumes "segments t = Some segs" and "segs \<noteq> []" and "\<not> is_param (last segs)"
  shows "\<exists>x. instantiate t ps = x @ CHR ''/'' # last segs"
  using assms by (simp add: instantiate_def concat_map_last)

lemma plain_target_unmetered:
  assumes "plain_target b"
  shows "\<not> is_metering w (outbound w b ps c)"
proof (cases "out_method b = POST")
  case False
  then show ?thesis by (simp add: is_metering_def outbound_def)
next
  case True
  with assms obtain segs
    where q: "\<not> with_query b" and sg: "segments (target b) = Some segs" and ne: "segs \<noteq> []"
      and lit: "\<not> is_param (last segs)" and inc: "last segs \<noteq> ''increment''"
      and sl: "CHR ''/'' \<notin> set (last segs)"
    by (auto simp: plain_target_def split: option.splits)
  from instantiate_tail [OF sg ne lit] obtain x
    where x: "instantiate (target b) ps = x @ CHR ''/'' # last segs" ..
  have "after_last_slash (url (outbound w b ps c)) = last segs"
    using q x sl after_last_slash_tail [of "last segs" "base_url (env w) (base b) @ x"]
    by (simp add: outbound_def)
  moreover have "after_last_slash (base_url (env w) METER_BASE @ ''/usage/increment'') = ''increment''"
    using after_last_slash_tail [of "''increment''" "base_url (env w) METER_BASE @ ''/usage''"]
    by simp
  ultimately show ?thesis
    using inc by (auto simp: is_metering_def)
qed

lemma endpoint_unmetered:
  assumes "unmetered (Route v pat e)"
  shows "\<exists>xs. issued (snd (run_endpoint w e ps c g)) = issued g @ xs \<and>
              list_all (\<lambda>call. \<not> is_metering w call) xs"
proof (cases e)
  case (Proxy b)
  with assms plain_target_unmetered [of b w ps c] show ?thesis
    by (auto simp: proxy_def Let_def issue_def split: fetch_result.splits option.splits)
next
  case ReadyzFull
  then show ?thesis
    by (simp add: readyz_full_def Let_def is_metering_def get_call_def)
next
  case (WrapWrite h metric)
  with assms show ?thesis by simp
qed (simp_all add: me_def)

lemma stack_unmetered:
  assumes "list_all unmetered ls"
  shows "\<exists>xs. issued (snd (run_stack w ls c g)) = issued g @ xs \<and>
              list_all (\<lambda>call. \<not> is_metering w call) xs"
  using assms
proof (induction ls arbitrary: c g)
  case Nil
  show ?case by simp
next
  case (Cons l ls)
  then have IH: "\<exists>xs. issued (snd (run_stack w ls c' g')) = issued g' @ xs \<and>
              list_all (\<lambda>call. \<not> is_metering w call) xs" for c' g'
    by simp
  show ?case
  proof (cases l)
    case (Route v pat e)
    with Cons.prems have "unmetered (Route v pat e)" by simp
    from endpoint_unmetered [OF this] Route IH [of c g] show ?thesis
      by (auto split: option.splits)
  next
    case (Use mount m)
    show ?thesis
    proof (cases "use_matches mount (path (request c))")
      case False
      with Use IH [of c g] show ?thesis by simp
    next
      case True
      obtain x g1 where run: "run_middleware w m c g = (x, g1)"
        by (cases "run_middleware w m c g")
      have "\<exists>xs. issued g1 = issued g @ xs \<and> list_all (\<lambda>call. http_method call = GET) xs"
      proof (cases m)
        case AuthEntitlements
        with run auth_shape [of w c g x g1] show ?thesis
          by (auto simp: issue_def get_call_def split: sum.splits)
      next
        case RateLimit
        with run show ?thesis by (auto simp: rate_limit_def split: if_splits)
      qed (use run in auto)
      then obtain xs where xs: "issued g1 = issued g @ xs"
        and gets: "list_all (\<lambda>call. \<not> is_metering w call) xs"
        by (auto simp: is_metering_def list_all_iff)
      show ?thesis
      proof (cases x)
        case (Inl resp)
        with Use True run xs gets show ?thesis by simp
      next
        case (Inr c')
        from IH [of c' g1] obtain ys
          where "issued (snd (run_stack w ls c' g1)) = issued g1 @ ys"
            and "list_all (\<lambda>call. \<not> is_metering w call) ys"
          by blast
        with Use True run xs gets Inr show ?thesis by simp
      qed
    qed
  qed
qed

lemma app_unmetered: "list_all unmetered app"
  by (simp add: app_def front_def routes_before_guards_def guards_def routes_after_guards_def
        plain_target_def fetch_get_def fetch_json_def fetch_delete_def segments_def is_param_def)

lemma app_unwrapped: "list_all (\<lambda>l. \<not> wrapped l) app"
  by (simp add: app_def front_def routes_before_guards_def guards_def routes_after_guards_def)

text \<open>
  Claim C10. No layer of the application is a route wrapped by \<open>wrapWrite\<close>. For
  every request, none of the calls the gateway issues is the metering notification, a
  \<open>POST\<close> to \<open>/usage/increment\<close> of the metering base address. And had a route been
  wrapped: the wrapper answers what the wrapped handler answers, with the same status and
  body and the same counter, whatever becomes of the notification, since \<open>meterWrite\<close>
  does the same whether its \<open>fetch\<close> resolves or rejects.
\<close>

theorem metering_never_issued:
  "list_all (\<lambda>l. \<not> wrapped l) app \<and>
   (\<forall>w g r. \<forall>call \<in> set (calls_of g (snd (handle w g r))). \<not> is_metering w call) \<and>
   (\<forall>w h metric ps c g.
      fst (run_endpoint w (WrapWrite h metric) ps c g) = fst (run_endpoint w h ps c g) \<and>
      TOKENS (snd (run_endpoint w (WrapWrite h metric) ps c g))
        = TOKENS (snd (run_endpoint w h ps c g))) \<and>
   (\<forall>w tenantId metric g. meterWrite w tenantId metric g = issue (meter_call w tenantId metric) g)"
proof (intro conjI allI ballI)
  show "list_all (\<lambda>l. \<not> wrapped l) app" by (rule app_unwrapped)
next
  fix w g r call
  assume c: "call \<in> set (calls_of g (snd (handle w g r)))"
  from stack_unmetered [OF app_unmetered, of w "fresh r" g] obtain xs
    where "issued (snd (handle w g r)) = issued g @ xs"
      and "list_all (\<lambda>call. \<not> is_metering w call) xs"
    by (auto simp: handle_def)
  with c show "\<not> is_metering w call"
    by (simp add: calls_of_def list_all_iff)
next
  fix w h metric ps c g
  show "fst (run_endpoint w (WrapWrite h metric) ps c g) = fst (run_endpoint w h ps c g)"
    by (simp add: Let_def case_prod_beta)
  show "TOKENS (snd (run_endpoint w (WrapWrite h metric) ps c g))
          = TOKENS (snd (run_endpoint w h ps c g))"
    by (simp only: endpoint_tokens)
next
  fix w tenantId metric g
  show "meterWrite w tenantId metric g = issue (meter_call w tenantId metric) g"
    by (rule meterWrite_issue)
qed

theorem metering_never_issued_witness:
  "calls_of (boot (env sample_world))
     (snd (handle sample_world (boot (env sample_world))
             (req POST ''/api/forms'' (Some ''Bearer good''))))
     = [get_call ''http://localhost:7002/entitlements/acme'',
        \<lparr>http_method = POST, url = ''http://localhost:7004/forms'',
          out_headers = [(''content-type'', ''application/json'')],
          payload = Some (JObj [])\<rparr>] \<and>
   \<not> is_metering sample_world
        \<lparr>http_method = POST, url = ''http://localhost:7004/forms'',
          out_headers = [(''content-type'', ''application/json'')],
          payload = Some (JObj [])\<rparr> \<and>
   is_metering sample_world (meter_call sample_world ''acme'' ''forms.create'')"
proof -
  let ?g = "boot (env sample_world)"
  let ?r = "req POST ''/api/forms'' (Some ''Bearer good'')"
  let ?post = "\<lparr>http_method = POST, url = ''http://localhost:7004/forms'',
                 out_headers = [(''content-type'', ''application/json'')],
                 payload = Some (JObj [])\<rparr>"
  have calls: "calls_of ?g (snd (handle sample_world ?g ?r))
                 = [get_call ''http://localhost:7002/entitlements/acme'', ?post]"
    by (simp add: handle_front req_def bearer_token_def sample_world_def
          env_or_def auth_entitlements_def resolve_entitlements_def ok_def forms_off_def
          request_id_def openPaths_def alice_def tenantId_of_def js_or_def entitlements_url_def
          boot_def rate_ceiling_def rate_limit_def issue_def get_call_def
          routes_before_guards_def handles_def route_match_def segments_def strip_slash_def
          is_param_def lower_def proxy_def outbound_def fetch_json_def fetch_get_def
          base_url_def ORG_BASE_def FORMS_BASE_def instantiate_def header_of_def
          calls_of_def Let_def)
  have "\<forall>call \<in> set (calls_of ?g (snd (handle sample_world ?g ?r))).
          \<not> is_metering sample_world call"
    using metering_never_issued by blast
  then have "\<not> is_metering sample_world ?post"
    by (simp only: calls) simp
  moreover have "is_metering sample_world (meter_call sample_world ''acme'' ''forms.create'')"
    by (simp add: is_metering_def meter_call_def)
  ultimately show ?thesis
    using calls by simp
qed

end
